theory Spec2Isabelle
  imports Main "HOL-Library.Sublist"
begin

section \<open>Strings of the host language\<close>

text \<open>
  A JavaScript string is modelled as a \<^typ>\<open>string\<close>: a list of code units, here
  restricted to the code units below 256. The operations below are the ones of the
  standard library that \<^verbatim>\<open>src/index.ts\<close> calls on strings.
\<close>

abbreviation LF :: char where "LF \<equiv> CHR 0x0A"
abbreviation CR :: char where "CR \<equiv> CHR 0x0D"
abbreviation SLASH :: char where "SLASH \<equiv> CHR ''/''"
abbreviation BACKTICK :: char where "BACKTICK \<equiv> CHR 0x60"
abbreviation DOLLAR :: char where "DOLLAR \<equiv> CHR ''$''"

text \<open>\<^verbatim>\<open>s.startsWith(t)\<close> is \<^term>\<open>prefix t s\<close>.\<close>

text \<open>\<^verbatim>\<open>s.includes(t)\<close>: \<open>t\<close> occurs in \<open>s\<close> as a contiguous substring.\<close>

fun str_includes :: "string \<Rightarrow> string \<Rightarrow> bool" where
  "str_includes [] t = (t = [])"
| "str_includes (c # s) t = (prefix t (c # s) \<or> str_includes s t)"

text \<open>
  \<^verbatim>\<open>GetSubstitution\<close> for a string pattern (no capture groups): in the replacement
  text \<^verbatim>\<open>$$\<close> stands for one dollar sign, \<^verbatim>\<open>$&\<close> for the matched text, \<^verbatim>\<open>$`\<close> for
  the text before the match and \<^verbatim>\<open>$'\<close> for the text after it; every other
  character, also a dollar sign followed by anything else, is copied.
\<close>

fun getSubstitution :: "string \<Rightarrow> string \<Rightarrow> string \<Rightarrow> string \<Rightarrow> string" where
  "getSubstitution matched pre post [] = []"
| "getSubstitution matched pre post [c] = [c]"
| "getSubstitution matched pre post (c # d # r) =
     (if c = DOLLAR \<and> d = DOLLAR then DOLLAR # getSubstitution matched pre post r
      else if c = DOLLAR \<and> d = CHR ''&'' then matched @ getSubstitution matched pre post r
      else if c = DOLLAR \<and> d = BACKTICK then pre @ getSubstitution matched pre post r
      else if c = DOLLAR \<and> d = CHR 0x27 then post @ getSubstitution matched pre post r
      else c # getSubstitution matched pre post (d # r))"

text \<open>
  \<^verbatim>\<open>s.replace(pat, repl)\<close> with a string pattern: the first occurrence of \<open>pat\<close>,
  from the left, is replaced by the substitution of \<open>repl\<close>; \<open>s\<close> is returned as it is
  when \<open>pat\<close> does not occur. The second argument carries the text already passed.
\<close>

fun replace_from :: "string \<Rightarrow> string \<Rightarrow> string \<Rightarrow> string \<Rightarrow> string" where
  "replace_from pre [] pat repl =
     (if pat = [] then pre @ getSubstitution pat pre [] repl else pre)"
| "replace_from pre (c # s) pat repl =
     (if prefix pat (c # s)
      then pre @ getSubstitution pat pre (drop (length pat) (c # s)) repl
             @ drop (length pat) (c # s)
      else replace_from (pre @ [c]) s pat repl)"

definition replace :: "string \<Rightarrow> string \<Rightarrow> string \<Rightarrow> string" where
  "replace s pat repl = replace_from [] s pat repl"

text \<open>\<^verbatim>\<open>s.split(sep)\<close> with a one-character separator; the result is never empty.\<close>

fun split :: "char \<Rightarrow> string \<Rightarrow> string list" where
  "split sep [] = [[]]"
| "split sep (c # s) =
     (if c = sep then [] # split sep s
      else (case split sep s of [] \<Rightarrow> [[c]] | l # ls \<Rightarrow> (c # l) # ls))"

text \<open>\<^verbatim>\<open>xs.join(sep)\<close> with a one-character separator.\<close>

fun join :: "char \<Rightarrow> string list \<Rightarrow> string" where
  "join sep [] = []"
| "join sep [l] = l"
| "join sep (l # m # ls) = l @ sep # join sep (m # ls)"

text \<open>
  The white space of \<^verbatim>\<open>trim\<close>, \<^verbatim>\<open>trimStart\<close> and of the regular expression class
  \<^verbatim>\<open>\s\<close> (the same set), among the code units below 256: tab, line feed, vertical
  tab, form feed, carriage return, space and the no-break space.
\<close>

definition isWhiteSpace :: "char \<Rightarrow> bool" where
  "isWhiteSpace c = (c \<in> {CHR 0x09, CHR 0x0A, CHR 0x0B, CHR 0x0C, CHR 0x0D, CHR 0x20, CHR 0xA0})"

definition trimStart :: "string \<Rightarrow> string" where
  "trimStart s = dropWhile isWhiteSpace s"

definition trim :: "string \<Rightarrow> string" where
  "trim s = rev (dropWhile isWhiteSpace (rev (dropWhile isWhiteSpace s)))"

text \<open>\<^verbatim>\<open>s.match(/^\s*/)?.[0] || ""\<close>: the leading white space of \<open>s\<close>.\<close>

definition leadingWhiteSpace :: "string \<Rightarrow> string" where
  "leadingWhiteSpace s = takeWhile isWhiteSpace s"

section \<open>Paths (the POSIX functions of the \<^verbatim>\<open>path\<close> module)\<close>

text \<open>
  \<^verbatim>\<open>normalizeString\<close> works segment by segment: an empty segment and \<^verbatim>\<open>.\<close> are
  dropped, \<^verbatim>\<open>..\<close> removes the segment before it, and is kept only when nothing is
  there to remove and the path may climb above its start. The stack is the result so
  far, last segment first.
\<close>

fun normalizeSegments :: "bool \<Rightarrow> string list \<Rightarrow> string list \<Rightarrow> string list" where
  "normalizeSegments allowAboveRoot [] stack = rev stack"
| "normalizeSegments allowAboveRoot (seg # segs) stack =
     (if seg = [] \<or> seg = ''.'' then normalizeSegments allowAboveRoot segs stack
      else if seg = ''..'' then
        (case stack of
           [] \<Rightarrow> normalizeSegments allowAboveRoot segs (if allowAboveRoot then [''..''] else [])
         | lastSeg # below \<Rightarrow>
             if lastSeg = ''..''
             then normalizeSegments allowAboveRoot segs (if allowAboveRoot then ''..'' # stack else stack)
             else normalizeSegments allowAboveRoot segs below)
      else normalizeSegments allowAboveRoot segs (seg # stack))"

definition normalizeString :: "string \<Rightarrow> bool \<Rightarrow> string" where
  "normalizeString p allowAboveRoot = join SLASH (normalizeSegments allowAboveRoot (split SLASH p) [])"

definition path_isAbsolute :: "string \<Rightarrow> bool" where
  "path_isAbsolute p = (p \<noteq> [] \<and> hd p = SLASH)"

definition path_normalize :: "string \<Rightarrow> string" where
  "path_normalize p =
     (if p = [] then ''.''
      else let isAbsolute = (hd p = SLASH);
               trailingSeparator = (last p = SLASH);
               q = normalizeString p (\<not> isAbsolute)
           in if q = [] then (if isAbsolute then ''/'' else if trailingSeparator then ''./'' else ''.'')
              else (if isAbsolute then ''/'' else []) @ q @ (if trailingSeparator then ''/'' else []))"

text \<open>\<^verbatim>\<open>path.join\<close>: the non-empty arguments joined by a slash, then normalised.\<close>

definition path_join :: "string list \<Rightarrow> string" where
  "path_join args =
     (case filter (\<lambda>a. a \<noteq> []) args of
        [] \<Rightarrow> ''.''
      | parts \<Rightarrow> path_normalize (join SLASH parts))"

text \<open>
  \<^verbatim>\<open>path.resolve\<close>: the arguments are taken from the right until one is absolute,
  with the working directory after the last of them. The list given to the loop is
  already in that order.
\<close>

fun resolve_loop :: "string list \<Rightarrow> string \<Rightarrow> string \<times> bool" where
  "resolve_loop [] resolvedPath = (resolvedPath, False)"
| "resolve_loop (p # ps) resolvedPath =
     (if p = [] then resolve_loop ps resolvedPath
      else if hd p = SLASH then (p @ ''/'' @ resolvedPath, True)
      else resolve_loop ps (p @ ''/'' @ resolvedPath))"

definition path_resolve :: "string \<Rightarrow> string list \<Rightarrow> string" where
  "path_resolve cwd args =
     (case resolve_loop (rev args @ [cwd]) [] of
        (resolvedPath, resolvedAbsolute) \<Rightarrow>
          (let q = normalizeString resolvedPath (\<not> resolvedAbsolute)
           in if resolvedAbsolute then ''/'' @ q else if q \<noteq> [] then q else ''.''))"

text \<open>
  \<^verbatim>\<open>path.dirname\<close>: scanning from the right and never looking at the first
  character, trailing slashes are skipped, then the last segment; the slash found
  there ends the result.
\<close>

definition path_dirname :: "string \<Rightarrow> string" where
  "path_dirname p =
     (if p = [] then ''.''
      else let hasRoot = (hd p = SLASH);
               afterTrailing = dropWhile (\<lambda>c. c = SLASH) (rev (tl p));
               found = dropWhile (\<lambda>c. c \<noteq> SLASH) afterTrailing
           in (case found of
                 [] \<Rightarrow> (if hasRoot then ''/'' else ''.'')
               | _ # beforeEnd \<Rightarrow>
                   if hasRoot \<and> beforeEnd = [] then ''//'' else hd p # rev beforeEnd))"

section \<open>The secure path resolver\<close>

text \<open>
  What \<^verbatim>\<open>validatePath\<close> reads from its surroundings: the home directory, the
  working directory of the process, the allow-list fixed at start, and the file
  system as far as \<^verbatim>\<open>fs.realpath\<close> sees it (\<open>None\<close> when the call is rejected).
\<close>

record env =
  homedir :: string
  cwd :: string
  allowedDirectories :: "string list"
  realpath :: "string \<Rightarrow> string option"

text \<open>The errors thrown, by their message.\<close>

datatype path_error =
    AccessDenied_PathOutside
  | AccessDenied_SymlinkTarget
  | AccessDenied_ParentOutside
  | ParentMissing string
  | RealpathFailed

definition normalizePath :: "string \<Rightarrow> string" where
  "normalizePath p = path_normalize p"

definition expandHome :: "string \<Rightarrow> string \<Rightarrow> string" where
  "expandHome home filepath =
     (if prefix ''~/'' filepath \<or> filepath = ''~''
      then path_join [home, drop 1 filepath]
      else filepath)"

text \<open>\<^verbatim>\<open>allowedDirectories.some((dir) => p.startsWith(dir))\<close>\<close>

definition isAllowed :: "string list \<Rightarrow> string \<Rightarrow> bool" where
  "isAllowed dirs p = list_ex (\<lambda>dir. prefix dir p) dirs"

text \<open>The body of the outer \<^verbatim>\<open>try\<close>: what it returns or throws.\<close>

definition validatePath_real :: "env \<Rightarrow> string \<Rightarrow> path_error + string" where
  "validatePath_real e absolute =
     (case realpath e absolute of
        None \<Rightarrow> Inl RealpathFailed
      | Some realPath \<Rightarrow>
          if \<not> isAllowed (allowedDirectories e) (normalizePath realPath)
          then Inl AccessDenied_SymlinkTarget
          else Inr realPath)"

text \<open>The body of the inner \<^verbatim>\<open>try\<close>, in the handler of the outer one.\<close>

definition validatePath_parent :: "env \<Rightarrow> string \<Rightarrow> string \<Rightarrow> path_error + string" where
  "validatePath_parent e absolute parentDir =
     (case realpath e parentDir of
        None \<Rightarrow> Inl RealpathFailed
      | Some realParentPath \<Rightarrow>
          if \<not> isAllowed (allowedDirectories e) (normalizePath realParentPath)
          then Inl AccessDenied_ParentOutside
          else Inr absolute)"

text \<open>The first statements of \<^verbatim>\<open>validatePath\<close>: the absolute form of the request.\<close>

definition toAbsolute :: "env \<Rightarrow> string \<Rightarrow> string" where
  "toAbsolute e requestedPath =
     (let expandedPath = expandHome (homedir e) requestedPath
      in if path_isAbsolute expandedPath
         then path_resolve (cwd e) [expandedPath]
         else path_resolve (cwd e) [cwd e, expandedPath])"

text \<open>
  \<^verbatim>\<open>validatePath\<close>. Each \<^verbatim>\<open>catch\<close> takes whatever its \<^verbatim>\<open>try\<close> threw: the outer
  handler goes on to the parent directory, the inner one throws the error about the
  missing parent.
\<close>

definition validatePath :: "env \<Rightarrow> string \<Rightarrow> path_error + string" where
  "validatePath e requestedPath =
     (let absolute = toAbsolute e requestedPath;
          normalizedRequested = normalizePath absolute
      in if \<not> isAllowed (allowedDirectories e) normalizedRequested
         then Inl AccessDenied_PathOutside
         else (case validatePath_real e absolute of
                 Inr realPath \<Rightarrow> Inr realPath
               | Inl thrown \<Rightarrow>
                   (let parentDir = path_dirname absolute
                    in (case validatePath_parent e absolute parentDir of
                          Inr p \<Rightarrow> Inr p
                        | Inl thrownInner \<Rightarrow> Inl (ParentMissing parentDir)))))"

section \<open>The patch engine\<close>

record edit =
  oldText :: string
  newText :: string

datatype edit_error = EditNotFound string | IOError

text \<open>\<^verbatim>\<open>text.replace(/\r\n/g, "\n")\<close>\<close>

fun normalizeLineEndings :: "string \<Rightarrow> string" where
  "normalizeLineEndings [] = []"
| "normalizeLineEndings [c] = [c]"
| "normalizeLineEndings (c # d # r) =
     (if c = CR \<and> d = LF then LF # normalizeLineEndings r
      else c # normalizeLineEndings (d # r))"

text \<open>
  \<^verbatim>\<open>oldLines.every((oldLine, j) => oldLine.trim() === potentialMatch[j].trim())\<close>
\<close>

definition isMatch :: "string list \<Rightarrow> string list \<Rightarrow> bool" where
  "isMatch oldLines potentialMatch =
     list_all (\<lambda>j. trim (oldLines ! j) = trim (potentialMatch ! j)) [0..<length oldLines]"

text \<open>
  The function mapped over the lines of the new text, with the index \<open>j\<close> of the
  line. \<^verbatim>\<open>oldLines[j]\<close> may lie beyond the old lines, where the old indentation is
  empty; the subtraction on \<^typ>\<open>nat\<close> is \<^verbatim>\<open>Math.max(0, relativeIndent)\<close>.
\<close>

definition indentLine :: "string list \<Rightarrow> string \<Rightarrow> nat \<Rightarrow> string \<Rightarrow> string" where
  "indentLine oldLines originalIndent j line =
     (if j = 0 then originalIndent @ trimStart line
      else let oldIndent = (if j < length oldLines then leadingWhiteSpace (oldLines ! j) else []);
               newIndent = leadingWhiteSpace line
           in if oldIndent \<noteq> [] \<and> newIndent \<noteq> []
              then originalIndent @ replicate (length newIndent - length oldIndent) (CHR '' '')
                     @ trimStart line
              else line)"

definition replacementLines :: "string list \<Rightarrow> string \<Rightarrow> string \<Rightarrow> string list" where
  "replacementLines oldLines originalIndent normalizedNew =
     map (\<lambda>(j, line). indentLine oldLines originalIndent j line)
       (enumerate 0 (split LF normalizedNew))"

text \<open>
  The \<^verbatim>\<open>for\<close> loop over the window's start \<open>i\<close>, from the top; the bound
  \<^verbatim>\<open>i <= contentLines.length - oldLines.length\<close> is written without the subtraction,
  which may be negative. \<open>None\<close> is \<^verbatim>\<open>matchFound\<close> still false after the loop.
\<close>

function fuzzyLoop :: "string list \<Rightarrow> string list \<Rightarrow> string \<Rightarrow> nat \<Rightarrow> string option" where
  "fuzzyLoop contentLines oldLines normalizedNew i =
     (if i + length oldLines \<le> length contentLines then
        (let potentialMatch = take (length oldLines) (drop i contentLines)
         in if isMatch oldLines potentialMatch then
              (let originalIndent = leadingWhiteSpace (contentLines ! i);
                   newLines = replacementLines oldLines originalIndent normalizedNew
               in Some (join LF (take i contentLines @ newLines
                                   @ drop (i + length oldLines) contentLines)))
            else fuzzyLoop contentLines oldLines normalizedNew (Suc i))
      else None)"
  by pat_completeness auto
termination
  by (relation "measure (\<lambda>(contentLines, oldLines, normalizedNew, i). Suc (length contentLines) - i)") auto

text \<open>One pass of the loop over the edits, on the content accumulated so far.\<close>

definition applyEdit :: "string \<Rightarrow> edit \<Rightarrow> edit_error + string" where
  "applyEdit modifiedContent ed =
     (let normalizedOld = normalizeLineEndings (oldText ed);
          normalizedNew = normalizeLineEndings (newText ed)
      in if str_includes modifiedContent normalizedOld
         then Inr (replace modifiedContent normalizedOld normalizedNew)
         else (case fuzzyLoop (split LF modifiedContent) (split LF normalizedOld) normalizedNew 0 of
                 Some c \<Rightarrow> Inr c
               | None \<Rightarrow> Inl (EditNotFound (oldText ed))))"

fun applyEdits :: "string \<Rightarrow> edit list \<Rightarrow> edit_error + string" where
  "applyEdits modifiedContent [] = Inr modifiedContent"
| "applyEdits modifiedContent (ed # eds) =
     (case applyEdit modifiedContent ed of
        Inl err \<Rightarrow> Inl err
      | Inr c \<Rightarrow> applyEdits c eds)"

text \<open>
  \<^verbatim>\<open>createTwoFilesPatch\<close> belongs to the \<^verbatim>\<open>diff\<close> package, not to this repository:
  it is a parameter \<open>patch\<close> of everything that renders a diff.
\<close>

type_synonym patcher = "string \<Rightarrow> string \<Rightarrow> string \<Rightarrow> string \<Rightarrow> string \<Rightarrow> string \<Rightarrow> string"

definition createUnifiedDiff :: "patcher \<Rightarrow> string \<Rightarrow> string \<Rightarrow> string \<Rightarrow> string" where
  "createUnifiedDiff patch originalContent newContent filepath =
     patch filepath filepath (normalizeLineEndings originalContent)
       (normalizeLineEndings newContent) ''original'' ''modified''"

lemma str_includes_length: "str_includes s t \<Longrightarrow> length t \<le> length s"
  by (induction s) (auto dest: prefix_length_le)

text \<open>
  \<^verbatim>\<open>while (diff.includes("`".repeat(numBackticks))) numBackticks++\<close>. The loop ends:
  a run that occurs in the diff is no longer than the diff.
\<close>

function countBackticks :: "string \<Rightarrow> nat \<Rightarrow> nat" where
  "countBackticks diff numBackticks =
     (if str_includes diff (replicate numBackticks BACKTICK)
      then countBackticks diff (Suc numBackticks)
      else numBackticks)"
  by pat_completeness auto
termination
  by (relation "measure (\<lambda>(diff, numBackticks). Suc (length diff) - numBackticks)")
     (auto dest: str_includes_length)

definition formatDiff :: "string \<Rightarrow> string" where
  "formatDiff diff =
     (let numBackticks = countBackticks diff 3
      in replicate numBackticks BACKTICK @ ''diff'' @ [LF] @ diff
           @ replicate numBackticks BACKTICK @ [LF, LF])"

text \<open>
  The files as \<^verbatim>\<open>fs.readFile\<close> and \<^verbatim>\<open>fs.writeFile\<close> see them. A file holds bytes;
  \<open>contents\<close> is \<open>None\<close> for a path whose reading is rejected, and \<open>writable\<close> tells
  whether a write to the path is accepted. A rejected write throws and, in this
  model, leaves the bytes as they were.
\<close>

type_synonym bytes = "char list"

record disk =
  contents :: "string \<Rightarrow> bytes option"
  writable :: "string \<Rightarrow> bool"

text \<open>
  The encoding \<^verbatim>\<open>"utf-8"\<close> of both calls, which belongs to the runtime: what
  reading makes of the bytes and what writing makes of the text.
\<close>

record codec =
  utf8_decode :: "bytes \<Rightarrow> string"
  utf8_encode :: "string \<Rightarrow> bytes"

text \<open>
  \<^verbatim>\<open>applyFileEdits\<close>. The diff is made before the write; a rejected write throws, and
  the caller gets the error instead of the diff.
\<close>

definition applyFileEdits ::
    "codec \<Rightarrow> patcher \<Rightarrow> disk \<Rightarrow> string \<Rightarrow> edit list \<Rightarrow> bool
       \<Rightarrow> (edit_error + string) \<times> disk" where
  "applyFileEdits cd patch dsk filePath edits dryRun =
     (case contents dsk filePath of
        None \<Rightarrow> (Inl IOError, dsk)
      | Some raw \<Rightarrow>
          (let content = normalizeLineEndings (utf8_decode cd raw)
           in (case applyEdits content edits of
                 Inl err \<Rightarrow> (Inl err, dsk)
               | Inr modifiedContent \<Rightarrow>
                   (let diff = createUnifiedDiff patch content modifiedContent filePath;
                        formattedDiff = formatDiff diff
                    in if \<not> dryRun
                       then (if writable dsk filePath
                             then (Inr formattedDiff,
                                   dsk\<lparr>contents :=
                                     (contents dsk)(filePath \<mapsto> utf8_encode cd modifiedContent)\<rparr>)
                             else (Inl IOError, dsk))
                       else (Inr formattedDiff, dsk)))))"

section \<open>The bounded recursive search\<close>

text \<open>
  \<^verbatim>\<open>s.toLowerCase()\<close> on the code units below 256: the letters A to Z and the
  accented capitals from 192 to 222, the multiplication sign 215 apart, move up by 32.
\<close>

definition toLowerChar :: "char \<Rightarrow> char" where
  "toLowerChar c =
     (let n = (of_char c :: nat)
      in if (65 \<le> n \<and> n \<le> 90) \<or> (192 \<le> n \<and> n \<le> 222 \<and> n \<noteq> 215)
         then char_of (n + 32) else c)"

definition toLowerCase :: "string \<Rightarrow> string" where
  "toLowerCase s = map toLowerChar s"

text \<open>
  \<^verbatim>\<open>path.relative\<close>: both paths are resolved; \<open>i\<close> is where the loop over the
  common characters after the leading slash stops, \<open>sepInLoop\<close> the last slash it
  has passed (\<open>-1\<close> when none), \<open>ups\<close> the positions that add a \<^verbatim>\<open>..\<close> to the output.
\<close>

definition path_relative :: "string \<Rightarrow> string \<Rightarrow> string \<Rightarrow> string" where
  "path_relative workingDir fromPath toPath =
     (if fromPath = toPath then []
      else let f = path_resolve workingDir [fromPath]; t = path_resolve workingDir [toPath]
      in if f = t then []
      else let fromEnd = length f;
               fromLen = fromEnd - 1;
               toLen = length t - 1;
               len = min fromLen toLen;
               i = length (takeWhile (\<lambda>(a, b). a = b) (zip (drop 1 f) (drop 1 t)));
               sepInLoop = (case filter (\<lambda>k. f ! (1 + k) = SLASH) [0..<i] of
                              [] \<Rightarrow> (-1 :: int)
                            | ks \<Rightarrow> int (last ks))
      in if i = len \<and> toLen > len \<and> t ! (1 + i) = SLASH then drop (1 + i + 1) t
         else if i = len \<and> toLen > len \<and> i = 0 then drop (1 + i) t
         else let lastCommonSep =
                    (if i = len \<and> \<not> toLen > len \<and> fromLen > len
                     then (if f ! (1 + i) = SLASH then int i
                           else if i = 0 then 0 else sepInLoop)
                     else sepInLoop);
                  ups = filter (\<lambda>k. k = fromEnd \<or> f ! k = SLASH)
                          [nat (1 + lastCommonSep + 1)..<Suc fromEnd];
                  out = join SLASH (map (\<lambda>k. ''..'') ups)
              in out @ drop (nat (1 + lastCommonSep)) t)"

text \<open>
  \<^verbatim>\<open>minimatch\<close> belongs to the package of that name, not to this repository: the
  search takes it as a parameter, the function from a path and a glob pattern to the
  answer under the option \<^verbatim>\<open>{ dot: true }\<close>.
\<close>

type_synonym matcher = "string \<Rightarrow> string \<Rightarrow> bool"

text \<open>
  The directory tree as \<^verbatim>\<open>fs.readdir\<close> with \<^verbatim>\<open>withFileTypes\<close> lists it: the entries
  of a directory by name, in the order of the listing. \<open>File\<close> is any entry for
  which \<^verbatim>\<open>isDirectory()\<close> is false, a symbolic link too; \<open>Unreadable\<close> is a directory
  whose listing is rejected.
\<close>

datatype dirent_tree = File | Directory "(string \<times> dirent_tree) list" | Unreadable

definition isDirectory :: "dirent_tree \<Rightarrow> bool" where
  "isDirectory t = (t \<noteq> File)"

text \<open>The test \<^verbatim>\<open>excludePatterns.some(...)\<close> on the path relative to the root.\<close>

definition shouldExclude :: "matcher \<Rightarrow> string list \<Rightarrow> string \<Rightarrow> bool" where
  "shouldExclude minimatch excludePatterns relativePath =
     list_ex (\<lambda>pattern.
        let globPattern = (if CHR ''*'' \<in> set pattern then pattern else ''**/'' @ pattern @ ''/**'')
        in minimatch relativePath globPattern) excludePatterns"

text \<open>
  The inner function \<^verbatim>\<open>search\<close> and its loop over the entries. \<open>results\<close> is the
  array the calls share. \<open>None\<close> is a rejected listing, which throws before anything
  is pushed; inside the loop the \<^verbatim>\<open>catch\<close> takes it, as it takes the error of
  \<^verbatim>\<open>validatePath\<close>, and the loop goes on with the next entry.
\<close>

fun search :: "matcher \<Rightarrow> env \<Rightarrow> string \<Rightarrow> string \<Rightarrow> string list \<Rightarrow> string \<Rightarrow> dirent_tree
                 \<Rightarrow> string list \<Rightarrow> string list option"
and searchEntries :: "matcher \<Rightarrow> env \<Rightarrow> string \<Rightarrow> string \<Rightarrow> string list \<Rightarrow> string
                 \<Rightarrow> (string \<times> dirent_tree) list \<Rightarrow> string list \<Rightarrow> string list" where
  "search minimatch e rootPath pattern excludePatterns currentPath (Directory entries) results =
     Some (searchEntries minimatch e rootPath pattern excludePatterns currentPath entries results)"
| "search minimatch e rootPath pattern excludePatterns currentPath File results = None"
| "search minimatch e rootPath pattern excludePatterns currentPath Unreadable results = None"
| "searchEntries minimatch e rootPath pattern excludePatterns currentPath [] results = results"
| "searchEntries minimatch e rootPath pattern excludePatterns currentPath ((name, t) # rest) results =
     (let fullPath = path_join [currentPath, name]
      in (case validatePath e fullPath of
            Inl thrown \<Rightarrow>
              searchEntries minimatch e rootPath pattern excludePatterns currentPath rest results
          | Inr validPath \<Rightarrow>
              (let relativePath = path_relative (cwd e) rootPath fullPath
               in if shouldExclude minimatch excludePatterns relativePath
                  then searchEntries minimatch e rootPath pattern excludePatterns currentPath rest results
                  else
                    (let pushed = (if str_includes (toLowerCase name) (toLowerCase pattern)
                                   then results @ [fullPath] else results);
                         searched =
                           (if isDirectory t
                            then (case search minimatch e rootPath pattern excludePatterns fullPath t pushed of
                                    None \<Rightarrow> pushed
                                  | Some deeper \<Rightarrow> deeper)
                            else pushed)
                     in searchEntries minimatch e rootPath pattern excludePatterns currentPath rest searched))))"

definition searchFiles :: "matcher \<Rightarrow> env \<Rightarrow> dirent_tree \<Rightarrow> string \<Rightarrow> string \<Rightarrow> string list \<Rightarrow> string list option" where
  "searchFiles minimatch e tree rootPath pattern excludePatterns =
     search minimatch e rootPath pattern excludePatterns rootPath tree []"

section \<open>A matcher for the concrete cases\<close>

text \<open>
  The matcher of the \<^verbatim>\<open>minimatch\<close> package, only for patterns whose segments are
  \<^verbatim>\<open>**\<close> or plain text without any character that the package gives a meaning
  (such as \<^verbatim>\<open>*\<close>, \<^verbatim>\<open>?\<close>, brackets, braces, parentheses, \<^verbatim>\<open>!\<close>), option \<^verbatim>\<open>dot\<close> set; it
  is used on the pattern \<^verbatim>\<open>**/node_modules/**\<close> alone. \<open>matchOne\<close> walks the segments of
  the path and of the pattern together. A \<^verbatim>\<open>**\<close> at the end of the pattern takes all
  the remaining segments, and there has to be one; before another pattern segment it
  takes none or more segments, never \<^verbatim>\<open>.\<close> or \<^verbatim>\<open>..\<close>. A pattern that ends before the
  path matches only an empty last segment, the trace of a trailing slash.
\<close>

datatype glob_part = GLOBSTAR | Literal string

definition parseGlob :: "string \<Rightarrow> glob_part list" where
  "parseGlob pattern = map (\<lambda>s. if s = ''**'' then GLOBSTAR else Literal s) (split SLASH pattern)"

fun matchOne :: "string list \<Rightarrow> glob_part list \<Rightarrow> bool" where
  "matchOne [] [] = True"
| "matchOne [] (p # ps) = False"
| "matchOne (f # fs) [] = (fs = [] \<and> f = [])"
| "matchOne (f # fs) (Literal s # ps) = (f = s \<and> matchOne fs ps)"
| "matchOne (f # fs) (GLOBSTAR # ps) =
     (if ps = [] then list_all (\<lambda>x. x \<noteq> ''.'' \<and> x \<noteq> ''..'') (f # fs)
      else (matchOne (f # fs) ps \<or> (f \<noteq> ''.'' \<and> f \<noteq> ''..'' \<and> matchOne fs (GLOBSTAR # ps))))"

definition minimatch_literal :: matcher where
  "minimatch_literal p pattern = matchOne (split SLASH p) (parseGlob pattern)"

section \<open>Notions of the specification\<close>

text \<open>
  The window of the content's lines that starts at line \<open>i\<close> matches the old lines:
  line by line, the two are equal after trimming.
\<close>

definition trimmedWindowMatch :: "string list \<Rightarrow> string list \<Rightarrow> nat \<Rightarrow> bool" where
  "trimmedWindowMatch contentLines oldLines i =
     (\<forall>j \<in> {0..<length oldLines}. trim (oldLines ! j) = trim (contentLines ! (i + j)))"

text \<open>The longest run of the character \<open>c\<close> in a text.\<close>

definition leadingRun :: "char \<Rightarrow> string \<Rightarrow> nat" where
  "leadingRun c s = length (takeWhile (\<lambda>x. x = c) s)"

fun longestRun :: "char \<Rightarrow> string \<Rightarrow> nat" where
  "longestRun c [] = 0"
| "longestRun c (x # s) = max (leadingRun c (x # s)) (longestRun c s)"

text \<open>
  A path lies inside a root, as a directory: it is the root, or it starts with the
  root followed by a separator (the separator that a root ending in one already has).
\<close>

definition insideRoot :: "string \<Rightarrow> string \<Rightarrow> bool" where
  "insideRoot dir p =
     (p = dir \<or> prefix (if dir \<noteq> [] \<and> last dir = SLASH then dir else dir @ ''/'') p)"

definition isContained :: "string list \<Rightarrow> string \<Rightarrow> bool" where
  "isContained dirs p = list_ex (\<lambda>dir. insideRoot dir p) dirs"


text \<open>
  The paths that the exclude patterns keep: those whose path relative to the root no
  exclude pattern matches.
\<close>

definition kept :: "matcher \<Rightarrow> env \<Rightarrow> string \<Rightarrow> string list \<Rightarrow> string set" where
  "kept minimatch e rootPath excludePatterns =
     {r. \<not> shouldExclude minimatch excludePatterns (path_relative (cwd e) rootPath r)}"

section \<open>A file system for the concrete cases\<close>

text \<open>
  One allowed root \<^verbatim>\<open>/allowed\<close>. Inside it \<^verbatim>\<open>/allowed/link\<close> is a symbolic link to
  the file \<^verbatim>\<open>/etc/passwd\<close> and \<^verbatim>\<open>/allowed/linkdir\<close> a symbolic link to the directory
  \<^verbatim>\<open>/outside\<close>. Beside it lie the directory \<^verbatim>\<open>/allowed2\<close> and \<^verbatim>\<open>/tmp/link\<close>, a
  symbolic link to \<^verbatim>\<open>/allowed\<close>. No other path that the cases ask for exists.
\<close>

definition realpath_example :: "string \<Rightarrow> string option" where
  "realpath_example p =
     (if p = ''/allowed'' then Some ''/allowed''
      else if p = ''/allowed/link'' then Some ''/etc/passwd''
      else if p = ''/allowed/linkdir'' then Some ''/outside''
      else if p = ''/allowed2'' then Some ''/allowed2''
      else if p = ''/tmp/link'' then Some ''/allowed''
      else None)"

definition env_example :: env where
  "env_example =
     \<lparr>homedir = ''/home/u'', cwd = ''/work'',
      allowedDirectories = [''/allowed''], realpath = realpath_example\<rparr>"

text \<open>
  A stand-in for the patcher in the concrete cases: the header lines that the
  \<^verbatim>\<open>diff\<close> package writes and, where the texts differ, the old text after a minus
  sign and the new text after a plus sign in place of its hunks. No general statement
  depends on it. The file \<^verbatim>\<open>/allowed/f.txt\<close> holds two lines, the first ended by
  carriage return and line feed, and can be written. Its bytes are ASCII, which
  decoding and encoding leave as they are.
\<close>

definition patch_example :: patcher where
  "patch_example oldFileName newFileName oldStr newStr oldHeader newHeader =
     (if oldFileName = newFileName then ''Index: '' @ oldFileName @ [LF] else [])
       @ replicate 67 (CHR ''='') @ [LF]
       @ ''--- '' @ oldFileName @ [CHR 0x09] @ oldHeader @ [LF]
       @ ''+++ '' @ newFileName @ [CHR 0x09] @ newHeader @ [LF]
       @ (if oldStr = newStr then []
          else ''-'' @ oldStr @ [LF] @ ''+'' @ newStr @ [LF])"

definition codec_ascii :: codec where
  "codec_ascii = \<lparr>utf8_decode = (\<lambda>b. b), utf8_encode = (\<lambda>t. t)\<rparr>"

definition disk_example :: disk where
  "disk_example =
     \<lparr>contents = [''/allowed/f.txt'' \<mapsto> [CHR ''a'', CR, LF, CHR ''b'']],
      writable = (\<lambda>p. True)\<rparr>"

text \<open>
  A tree under the root \<^verbatim>\<open>/allowed\<close> with the one file \<^verbatim>\<open>a/b/node_modules/x.txt\<close>, and
  a file system in which every path under \<^verbatim>\<open>/allowed\<close> is its own real path.
\<close>

definition realpath_tree :: "string \<Rightarrow> string option" where
  "realpath_tree p = (if prefix ''/allowed'' p then Some p else None)"

definition env_tree :: env where
  "env_tree = \<lparr>homedir = ''/home/u'', cwd = ''/work'',
      allowedDirectories = [''/allowed''], realpath = realpath_tree\<rparr>"

definition tree_example :: dirent_tree where
  "tree_example =
     Directory [(''a'', Directory [(''b'', Directory [(''node_modules'',
        Directory [(''x.txt'', File)])])])]"


section \<open>Properties of the path resolver\<close>

lemma validatePath_real_cases:
  "validatePath_real e a = Inr r \<longleftrightarrow>
     realpath e a = Some r \<and> isAllowed (allowedDirectories e) (normalizePath r)"
  by (auto simp: validatePath_real_def split: option.splits)

lemma validatePath_symlink_target_outside:
  assumes "isAllowed (allowedDirectories e) (normalizePath (toAbsolute e p))"
    and "realpath e (toAbsolute e p) = Some target"
    and "\<not> isAllowed (allowedDirectories e) (normalizePath target)"
  shows "validatePath e p =
           (case validatePath_parent e (toAbsolute e p) (path_dirname (toAbsolute e p)) of
              Inr r \<Rightarrow> Inr r
            | Inl thrownInner \<Rightarrow> Inl (ParentMissing (path_dirname (toAbsolute e p))))"
proof -
  have "validatePath_real e (toAbsolute e p) = Inl AccessDenied_SymlinkTarget"
    using assms(2,3) by (simp add: validatePath_real_def)
  then show ?thesis
    using assms(1) by (simp add: validatePath_def Let_def)
qed

text \<open>
  The two access errors thrown inside the \<^verbatim>\<open>try\<close> blocks never reach the caller:
  a failing call reports the request outside the allow-list or a missing parent.
\<close>

lemma validatePath_errors:
  "validatePath e p = Inl err \<Longrightarrow>
     err = AccessDenied_PathOutside \<or> err = ParentMissing (path_dirname (toAbsolute e p))"
  by (auto simp: validatePath_def Let_def split: if_splits sum.splits)

lemma validatePath_parent_target_outside:
  assumes "isAllowed (allowedDirectories e) (normalizePath (toAbsolute e p))"
    and "realpath e (toAbsolute e p) = None"
    and "realpath e (path_dirname (toAbsolute e p)) = Some rp"
    and "\<not> isAllowed (allowedDirectories e) (normalizePath rp)"
  shows "validatePath e p = Inl (ParentMissing (path_dirname (toAbsolute e p)))"
proof -
  have "validatePath_real e (toAbsolute e p) = Inl RealpathFailed"
    using assms(2) by (simp add: validatePath_real_def)
  moreover have "validatePath_parent e (toAbsolute e p) (path_dirname (toAbsolute e p))
      = Inl AccessDenied_ParentOutside"
    using assms(3,4) by (simp add: validatePath_parent_def)
  ultimately show ?thesis
    using assms(1) by (simp add: validatePath_def Let_def)
qed

lemma validatePath_parent_cases:
  "validatePath_parent e a d = Inr r \<longleftrightarrow>
     r = a \<and> (\<exists>rp. realpath e d = Some rp \<and> isAllowed (allowedDirectories e) (normalizePath rp))"
  by (auto simp: validatePath_parent_def split: option.splits)

text \<open>
  Claim C1. A symbolic link under an allowed root whose target lies outside every
  root should be refused with the access error. Here \<^verbatim>\<open>/allowed/link\<close> passes the
  first check, its real path \<^verbatim>\<open>/etc/passwd\<close> is outside the allow-list, and
  \<^verbatim>\<open>validatePath\<close> returns the link's own path: the error thrown for the target is
  taken by the handler that looks at the parent directory, which is allowed.
\<close>

theorem validatePath_symlink_escape_returns_path:
  "isAllowed (allowedDirectories env_example)
     (normalizePath (toAbsolute env_example ''/allowed/link''))
   \<and> realpath env_example (toAbsolute env_example ''/allowed/link'') = Some ''/etc/passwd''
   \<and> \<not> isAllowed (allowedDirectories env_example) (normalizePath ''/etc/passwd'')
   \<and> validatePath env_example ''/allowed/link'' = Inr ''/allowed/link''"
  by code_simp

text \<open>
  Claim C2. The containment check should compare directory components. The check is
  \<^verbatim>\<open>startsWith\<close> on the strings: \<^verbatim>\<open>/allowed2/new.txt\<close> is accepted against the entry
  \<^verbatim>\<open>/allowed\<close>, of which it is no descendant, and \<^verbatim>\<open>validatePath\<close> returns it.
\<close>

theorem validatePath_sibling_directory_accepted:
  "allowedDirectories env_example = [''/allowed'']
   \<and> normalizePath (toAbsolute env_example ''/allowed2/new.txt'') = ''/allowed2/new.txt''
   \<and> isAllowed (allowedDirectories env_example) ''/allowed2/new.txt''
   \<and> validatePath env_example ''/allowed2/new.txt'' = Inr ''/allowed2/new.txt''"
  by code_simp

text \<open>
  Claim C3. For a path that does not exist, a parent that exists but resolves outside
  the allow-list should give the access error, and only a missing parent the error
  about the parent. Here the parent \<^verbatim>\<open>/allowed/linkdir\<close> exists and resolves to
  \<^verbatim>\<open>/outside\<close>; the access error thrown for it is taken by the inner handler, and the
  caller gets the error about a missing parent.
\<close>

theorem validatePath_parent_outside_reported_missing:
  "realpath env_example (toAbsolute env_example ''/allowed/linkdir/new.txt'') = None
   \<and> realpath env_example (path_dirname (toAbsolute env_example ''/allowed/linkdir/new.txt''))
       = Some ''/outside''
   \<and> \<not> isAllowed (allowedDirectories env_example) (normalizePath ''/outside'')
   \<and> validatePath env_example ''/allowed/linkdir/new.txt''
       = Inl (ParentMissing ''/allowed/linkdir'')"
  by code_simp

text \<open>
  Claim C7, as stated: every path that does not exist and whose parent exists and
  resolves inside an allowed root is accepted. It fails for \<^verbatim>\<open>/tmp/link/new.txt\<close>:
  the parent \<^verbatim>\<open>/tmp/link\<close> resolves to \<^verbatim>\<open>/allowed\<close>, but the request itself does not
  start with an allow-list entry, and the first check refuses it.
\<close>

theorem validatePath_new_path_counterexample:
  "realpath env_example (toAbsolute env_example ''/tmp/link/new.txt'') = None
   \<and> realpath env_example (path_dirname (toAbsolute env_example ''/tmp/link/new.txt''))
       = Some ''/allowed''
   \<and> isContained (allowedDirectories env_example) (normalizePath ''/allowed'')
   \<and> validatePath env_example ''/tmp/link/new.txt'' = Inl AccessDenied_PathOutside"
  by code_simp

lemma insideRoot_prefix: "insideRoot dir p \<Longrightarrow> prefix dir p"
  by (auto simp: insideRoot_def split: if_splits dest: append_prefixD)

lemma isContained_isAllowed: "isContained dirs p \<Longrightarrow> isAllowed dirs p"
  by (auto simp: isContained_def isAllowed_def list_ex_iff dest: insideRoot_prefix)

text \<open>
  Claim C7, amended: a path that does not exist, whose own absolute form lies inside
  an allowed root, and whose parent directory exists and resolves inside an allowed
  root, is accepted, and the result is its absolute form, the leaf not resolved.
\<close>

theorem validatePath_new_path:
  assumes "isContained (allowedDirectories e) (normalizePath (toAbsolute e p))"
    and "realpath e (toAbsolute e p) = None"
    and "realpath e (path_dirname (toAbsolute e p)) = Some rp"
    and "isContained (allowedDirectories e) (normalizePath rp)"
  shows "validatePath e p = Inr (toAbsolute e p)"
proof -
  have "validatePath_real e (toAbsolute e p) = Inl RealpathFailed"
    using assms(2) by (simp add: validatePath_real_def)
  moreover have "validatePath_parent e (toAbsolute e p) (path_dirname (toAbsolute e p))
      = Inr (toAbsolute e p)"
    using assms(3) isContained_isAllowed [OF assms(4)] by (simp add: validatePath_parent_cases)
  ultimately show ?thesis
    using isContained_isAllowed [OF assms(1)] by (simp add: validatePath_def Let_def)
qed

theorem validatePath_new_path_witness:
  "validatePath env_example ''/allowed/new.txt'' = Inr ''/allowed/new.txt''"
proof -
  have a: "toAbsolute env_example ''/allowed/new.txt'' = ''/allowed/new.txt''"
    by code_simp
  have h1: "isContained (allowedDirectories env_example)
      (normalizePath (toAbsolute env_example ''/allowed/new.txt''))"
    by code_simp
  have h2: "realpath env_example (toAbsolute env_example ''/allowed/new.txt'') = None"
    by code_simp
  have h3: "realpath env_example (path_dirname (toAbsolute env_example ''/allowed/new.txt''))
      = Some ''/allowed''"
    by code_simp
  have h4: "isContained (allowedDirectories env_example) (normalizePath ''/allowed'')"
    by code_simp
  show ?thesis
    using validatePath_new_path [OF h1 h2 h3 h4] a by simp
qed

section \<open>Properties of the patch engine\<close>

declare fuzzyLoop.simps [simp del]
declare countBackticks.simps [simp del]

lemma str_includes_iff: "str_includes s t \<longleftrightarrow> (\<exists>p q. s = p @ t @ q)"
proof (induction s)
  case Nil
  then show ?case by auto
next
  case (Cons c s)
  have "(\<exists>p q. c # s = p @ t @ q) \<longleftrightarrow> (\<exists>q. c # s = t @ q) \<or> (\<exists>p q. s = p @ t @ q)"
  proof
    assume "\<exists>p q. c # s = p @ t @ q"
    then obtain p q where pq: "c # s = p @ t @ q" by blast
    show "(\<exists>q. c # s = t @ q) \<or> (\<exists>p q. s = p @ t @ q)"
    proof (cases p)
      case Nil
      with pq show ?thesis by auto
    next
      case (Cons a p')
      with pq have "s = p' @ t @ q" by simp
      then show ?thesis by blast
    qed
  next
    assume "(\<exists>q. c # s = t @ q) \<or> (\<exists>p q. s = p @ t @ q)"
    then show "\<exists>p q. c # s = p @ t @ q"
    proof
      assume "\<exists>q. c # s = t @ q"
      then obtain q where "c # s = [] @ t @ q" by auto
      then show ?thesis by blast
    next
      assume "\<exists>p q. s = p @ t @ q"
      then obtain p q where "c # s = (c # p) @ t @ q" by auto
      then show ?thesis by blast
    qed
  qed
  with Cons show ?case by (auto simp: prefix_def)
qed

lemma isMatch_window:
  "i + length oldLines \<le> length contentLines \<Longrightarrow>
   isMatch oldLines (take (length oldLines) (drop i contentLines))
     \<longleftrightarrow> trimmedWindowMatch contentLines oldLines i"
  by (simp add: isMatch_def trimmedWindowMatch_def list_all_iff)

lemma all_from_split: "(\<forall>k\<ge>i. Q k) \<longleftrightarrow> Q i \<and> (\<forall>k\<ge>Suc i. Q (k::nat))"
proof
  assume "\<forall>k\<ge>i. Q k"
  then show "Q i \<and> (\<forall>k\<ge>Suc i. Q k)" by simp
next
  assume r: "Q i \<and> (\<forall>k\<ge>Suc i. Q k)"
  show "\<forall>k\<ge>i. Q k"
  proof (intro allI impI)
    fix k assume "i \<le> k"
    then have "k = i \<or> Suc i \<le> k" by arith
    with r show "Q k" by blast
  qed
qed

lemma fuzzyLoop_None:
  "fuzzyLoop cl ol new i = None \<longleftrightarrow>
     (\<forall>k\<ge>i. k + length ol \<le> length cl \<longrightarrow> \<not> isMatch ol (take (length ol) (drop k cl)))"
proof (induction cl ol new i rule: fuzzyLoop.induct)
  case (1 cl ol new i)
  show ?case
  proof (cases "i + length ol \<le> length cl")
    case False
    then have "fuzzyLoop cl ol new i = None"
      by (subst fuzzyLoop.simps) simp
    moreover have "\<forall>k\<ge>i. \<not> k + length ol \<le> length cl"
      using False by simp
    ultimately show ?thesis by simp
  next
    case inrange: True
    show ?thesis
    proof (cases "isMatch ol (take (length ol) (drop i cl))")
      case True
      with inrange have "fuzzyLoop cl ol new i \<noteq> None"
        by (subst fuzzyLoop.simps) (simp add: Let_def)
      moreover have "\<not> (\<forall>k\<ge>i. k + length ol \<le> length cl \<longrightarrow>
          \<not> isMatch ol (take (length ol) (drop k cl)))"
        using True inrange by blast
      ultimately show ?thesis by blast
    next
      case False
      with inrange have "fuzzyLoop cl ol new i = fuzzyLoop cl ol new (Suc i)"
        by (subst fuzzyLoop.simps) (simp add: Let_def)
      moreover have "fuzzyLoop cl ol new (Suc i) = None \<longleftrightarrow>
          (\<forall>k\<ge>Suc i. k + length ol \<le> length cl \<longrightarrow> \<not> isMatch ol (take (length ol) (drop k cl)))"
        using "1.IH" [OF inrange refl False] .
      ultimately show ?thesis
        using False by (subst all_from_split) simp
    qed
  qed
qed

lemma fuzzyLoop_first:
  "i \<le> k \<Longrightarrow> k + length ol \<le> length cl \<Longrightarrow>
   isMatch ol (take (length ol) (drop k cl)) \<Longrightarrow>
   (\<forall>m. i \<le> m \<and> m < k \<longrightarrow> \<not> isMatch ol (take (length ol) (drop m cl))) \<Longrightarrow>
   fuzzyLoop cl ol new i =
     Some (join LF (take k cl @ replacementLines ol (leadingWhiteSpace (cl ! k)) new
                      @ drop (k + length ol) cl))"
proof (induction cl ol new i rule: fuzzyLoop.induct)
  case (1 cl ol new i)
  have inrange: "i + length ol \<le> length cl" using "1.prems" by simp
  show ?case
  proof (cases "i = k")
    case True
    with "1.prems" inrange show ?thesis by (subst fuzzyLoop.simps) (simp add: Let_def)
  next
    case False
    then have lt: "i < k" using "1.prems" by simp
    then have nm: "\<not> isMatch ol (take (length ol) (drop i cl))" using "1.prems" by simp
    have "fuzzyLoop cl ol new i = fuzzyLoop cl ol new (Suc i)"
      using inrange nm by (subst fuzzyLoop.simps) (simp add: Let_def)
    also have "\<dots> = Some (join LF (take k cl @ replacementLines ol (leadingWhiteSpace (cl ! k)) new
                      @ drop (k + length ol) cl))"
      using "1.IH" [OF inrange refl nm] lt "1.prems" by simp
    finally show ?thesis .
  qed
qed

lemma split_not_Nil: "split sep s \<noteq> []"
  by (induction s) (auto split: list.splits)

lemma replacementLines_first:
  "replacementLines ol ind new \<noteq> [] \<and>
   hd (replacementLines ol ind new) = ind @ trimStart (hd (split LF new)) \<and>
   length (replacementLines ol ind new) = length (split LF new)"
proof (cases "split LF new")
  case Nil
  then show ?thesis using split_not_Nil by blast
next
  case (Cons l ls)
  then show ?thesis by (simp add: replacementLines_def indentLine_def)
qed

lemma applyEdits_append:
  "applyEdits c (xs @ ys) = (case applyEdits c xs of Inl err \<Rightarrow> Inl err | Inr c' \<Rightarrow> applyEdits c' ys)"
  by (induction xs arbitrary: c) (auto split: sum.splits)


text \<open>
  Claim C4. An edit whose old text occurs in the content accumulated so far neither
  verbatim nor as a window of trimmed lines makes the whole operation fail with
  \<open>EditNotFound\<close>, carrying that old text: whatever edits follow are not applied,
  nothing is written and the files are as before.
\<close>

theorem applyFileEdits_unmatched_edit:
  assumes "contents dsk filePath = Some raw"
    and "applyEdits (normalizeLineEndings (utf8_decode cd raw)) applied = Inr c"
    and "\<not> (\<exists>p q. c = p @ normalizeLineEndings (oldText ed) @ q)"
    and "\<forall>i. i + length (split LF (normalizeLineEndings (oldText ed))) \<le> length (split LF c)
           \<longrightarrow> \<not> trimmedWindowMatch (split LF c) (split LF (normalizeLineEndings (oldText ed))) i"
  shows "applyFileEdits cd patch dsk filePath (applied @ ed # rest) dryRun
           = (Inl (EditNotFound (oldText ed)), dsk)"
proof -
  let ?ol = "split LF (normalizeLineEndings (oldText ed))"
  have "fuzzyLoop (split LF c) ?ol (normalizeLineEndings (newText ed)) 0 = None"
    unfolding fuzzyLoop_None using assms(4) by (simp add: isMatch_window)
  moreover have "\<not> str_includes c (normalizeLineEndings (oldText ed))"
    using assms(3) by (simp add: str_includes_iff)
  ultimately have "applyEdit c ed = Inl (EditNotFound (oldText ed))"
    by (simp add: applyEdit_def Let_def)
  then have "applyEdits (normalizeLineEndings (utf8_decode cd raw)) (applied @ ed # rest)
      = Inl (EditNotFound (oldText ed))"
    using assms(2) by (simp add: applyEdits_append)
  then show ?thesis
    using assms(1) by (simp add: applyFileEdits_def Let_def)
qed

theorem applyFileEdits_unmatched_edit_witness:
  "applyFileEdits codec_ascii patch_example disk_example ''/allowed/f.txt''
     ([\<lparr>oldText = ''a'', newText = ''x''\<rparr>] @ \<lparr>oldText = ''zz'', newText = ''y''\<rparr>
        # [\<lparr>oldText = ''b'', newText = ''c''\<rparr>]) False
   = (Inl (EditNotFound ''zz''), disk_example)"
proof -
  let ?c = "[CHR ''x'', LF, CHR ''b'']"
  let ?ed = "\<lparr>oldText = ''zz'', newText = ''y''\<rparr>"
  have h1: "contents disk_example ''/allowed/f.txt'' = Some [CHR ''a'', CR, LF, CHR ''b'']"
    by code_simp
  have h2: "applyEdits (normalizeLineEndings (utf8_decode codec_ascii [CHR ''a'', CR, LF, CHR ''b'']))
      [\<lparr>oldText = ''a'', newText = ''x''\<rparr>] = Inr ?c"
    by code_simp
  have "\<not> str_includes ?c (normalizeLineEndings (oldText ?ed))"
    by code_simp
  then have h3: "\<not> (\<exists>p q. ?c = p @ normalizeLineEndings (oldText ?ed) @ q)"
    using str_includes_iff by blast
  have cl: "split LF ?c = [''x'', ''b'']" and ol: "split LF (normalizeLineEndings (oldText ?ed)) = [''zz'']"
    by code_simp+
  have w0: "\<not> trimmedWindowMatch [''x'', ''b''] [''zz''] 0"
    and w1: "\<not> trimmedWindowMatch [''x'', ''b''] [''zz''] 1"
    by code_simp+
  have h4: "\<forall>i. i + length (split LF (normalizeLineEndings (oldText ?ed))) \<le> length (split LF ?c)
      \<longrightarrow> \<not> trimmedWindowMatch (split LF ?c) (split LF (normalizeLineEndings (oldText ?ed))) i"
  proof (intro allI impI)
    fix i
    assume "i + length (split LF (normalizeLineEndings (oldText ?ed))) \<le> length (split LF ?c)"
    then have "i = 0 \<or> i = 1" unfolding cl ol by auto
    with w0 w1 show "\<not> trimmedWindowMatch (split LF ?c) (split LF (normalizeLineEndings (oldText ?ed))) i"
      unfolding cl ol by auto
  qed
  show ?thesis
    using applyFileEdits_unmatched_edit
      [where dsk = disk_example and cd = codec_ascii and filePath = "''/allowed/f.txt''"
         and ed = ?ed and patch = patch_example
         and rest = "[\<lparr>oldText = ''b'', newText = ''c''\<rparr>]"
         and dryRun = False, OF h1 h2 h3 h4]
    by simp
qed

text \<open>
  Claim C5. When the old text does not occur verbatim, a window of as many lines as
  the old text has slides down the content's lines; a window matches when its lines
  equal the old lines after trimming, line by line. The first such window from the top
  is replaced by the lines made from the new text, and the first of these is the
  leading white space of the window's first line followed by the first new line
  without its own leading white space.
\<close>

theorem applyEdit_fuzzy_first_window:
  assumes "\<not> (\<exists>p q. content = p @ normalizeLineEndings (oldText ed) @ q)"
    and "contentLines = split LF content"
    and "oldLines = split LF (normalizeLineEndings (oldText ed))"
    and "i + length oldLines \<le> length contentLines"
    and "trimmedWindowMatch contentLines oldLines i"
    and "\<forall>k<i. \<not> trimmedWindowMatch contentLines oldLines k"
  shows "applyEdit content ed =
           Inr (join LF (take i contentLines
                  @ replacementLines oldLines (leadingWhiteSpace (contentLines ! i))
                      (normalizeLineEndings (newText ed))
                  @ drop (i + length oldLines) contentLines))
         \<and> hd (replacementLines oldLines (leadingWhiteSpace (contentLines ! i))
                 (normalizeLineEndings (newText ed)))
             = leadingWhiteSpace (contentLines ! i)
                 @ trimStart (hd (split LF (normalizeLineEndings (newText ed))))"
proof -
  have m: "isMatch oldLines (take (length oldLines) (drop i contentLines))"
    using assms(4,5) by (simp add: isMatch_window)
  have n: "\<forall>m. 0 \<le> m \<and> m < i \<longrightarrow>
      \<not> isMatch oldLines (take (length oldLines) (drop m contentLines))"
    using assms(4,6) by (simp add: isMatch_window)
  have "fuzzyLoop contentLines oldLines (normalizeLineEndings (newText ed)) 0 =
      Some (join LF (take i contentLines
             @ replacementLines oldLines (leadingWhiteSpace (contentLines ! i))
                 (normalizeLineEndings (newText ed))
             @ drop (i + length oldLines) contentLines))"
    using fuzzyLoop_first [OF _ assms(4) m n] by simp
  moreover have "\<not> str_includes content (normalizeLineEndings (oldText ed))"
    using assms(1) by (simp add: str_includes_iff)
  ultimately show ?thesis
    using assms(2,3) replacementLines_first by (simp add: applyEdit_def Let_def)
qed

theorem applyEdit_fuzzy_first_window_witness:
  "applyEdit (''x'' @ [LF] @ ''  foo'' @ [LF] @ ''    bar'' @ [LF] @ ''y'')
     \<lparr>oldText = ''foo'' @ [LF] @ ''bar'', newText = '' baz'' @ [LF] @ ''qux''\<rparr>
   = Inr (''x'' @ [LF] @ ''  baz'' @ [LF] @ ''qux'' @ [LF] @ ''y'')"
proof -
  let ?content = "''x'' @ [LF] @ ''  foo'' @ [LF] @ ''    bar'' @ [LF] @ ''y''"
  let ?ed = "\<lparr>oldText = ''foo'' @ [LF] @ ''bar'', newText = '' baz'' @ [LF] @ ''qux''\<rparr>"
  let ?cl = "[''x'', ''  foo'', ''    bar'', ''y'']"
  let ?ol = "[''foo'', ''bar'']"
  have "\<not> str_includes ?content (normalizeLineEndings (oldText ?ed))"
    by code_simp
  then have h1: "\<not> (\<exists>p q. ?content = p @ normalizeLineEndings (oldText ?ed) @ q)"
    using str_includes_iff by blast
  have h2: "?cl = split LF ?content" by code_simp
  have h3: "?ol = split LF (normalizeLineEndings (oldText ?ed))" by code_simp
  have h4: "1 + length ?ol \<le> length ?cl" by simp
  have h5: "trimmedWindowMatch ?cl ?ol 1" by code_simp
  have w0: "\<not> trimmedWindowMatch ?cl ?ol 0" by code_simp
  have h6: "\<forall>k<1. \<not> trimmedWindowMatch ?cl ?ol k" using w0 by simp
  have r: "join LF (take 1 ?cl
             @ replacementLines ?ol (leadingWhiteSpace (?cl ! 1)) (normalizeLineEndings (newText ?ed))
             @ drop (1 + length ?ol) ?cl)
           = ''x'' @ [LF] @ ''  baz'' @ [LF] @ ''qux'' @ [LF] @ ''y''"
    by code_simp
  show ?thesis
    using applyEdit_fuzzy_first_window [OF h1 h2 h3 h4 h5 h6] r by simp
qed




lemma prefix_replicate_iff: "prefix (replicate n c) s \<longleftrightarrow> n \<le> leadingRun c s"
proof (induction s arbitrary: n)
  case Nil
  then show ?case by (simp add: leadingRun_def)
next
  case (Cons x s)
  show ?case
  proof (cases n)
    case 0
    then show ?thesis by simp
  next
    case (Suc m)
    with Cons show ?thesis by (auto simp: leadingRun_def)
  qed
qed

lemma str_includes_replicate_iff: "str_includes s (replicate n c) \<longleftrightarrow> n \<le> longestRun c s"
  by (induction s) (auto simp: prefix_replicate_iff)

lemma countBackticks_eq: "countBackticks d n = max n (Suc (longestRun BACKTICK d))"
proof (induction d n rule: countBackticks.induct)
  case (1 d n)
  show ?case
  proof (cases "n \<le> longestRun BACKTICK d")
    case True
    then have "countBackticks d n = countBackticks d (Suc n)"
      by (subst countBackticks.simps) (simp add: str_includes_replicate_iff)
    also have "\<dots> = max (Suc n) (Suc (longestRun BACKTICK d))"
      using "1.IH" True by (simp add: str_includes_replicate_iff)
    finally show ?thesis using True by simp
  next
    case False
    then have "countBackticks d n = n"
      by (subst countBackticks.simps) (simp add: str_includes_replicate_iff)
    with False show ?thesis by simp
  qed
qed

text \<open>
  Claim C8, as stated: the fence is one backtick longer than the longest run of
  backticks in the diff. It fails for a diff without backticks, whose fence has three
  of them and not one.
\<close>

theorem applyFileEdits_fence_length_counterexample:
  "longestRun BACKTICK (createUnifiedDiff patch_example
       (normalizeLineEndings [CHR ''a'', CR, LF, CHR ''b''])
       (normalizeLineEndings [CHR ''a'', CR, LF, CHR ''b'']) ''/allowed/f.txt'') = 0
   \<and> fst (applyFileEdits codec_ascii patch_example disk_example ''/allowed/f.txt'' [] True)
       = Inr (replicate 3 BACKTICK @ ''diff'' @ [LF]
              @ createUnifiedDiff patch_example
                  (normalizeLineEndings [CHR ''a'', CR, LF, CHR ''b''])
                  (normalizeLineEndings [CHR ''a'', CR, LF, CHR ''b'']) ''/allowed/f.txt''
              @ replicate 3 BACKTICK @ [LF, LF])"
  by code_simp

text \<open>
  Claim C8, amended: the fence before and after the diff has three backticks or one
  more than the longest run of backticks in the diff, whichever is greater. A diff
  is returned in a dry run and after an accepted write; after a rejected write the
  call fails with \<open>IOError\<close>.
\<close>

theorem applyFileEdits_fence_length:
  assumes "contents dsk filePath = Some raw"
    and "applyEdits (normalizeLineEndings (utf8_decode cd raw)) edits = Inr modified"
    and "diff = createUnifiedDiff patch (normalizeLineEndings (utf8_decode cd raw)) modified filePath"
    and "n = max 3 (Suc (longestRun BACKTICK diff))"
  shows "fst (applyFileEdits cd patch dsk filePath edits dryRun)
           = (if dryRun \<or> writable dsk filePath
              then Inr (replicate n BACKTICK @ ''diff'' @ [LF] @ diff
                        @ replicate n BACKTICK @ [LF, LF])
              else Inl IOError)"
  using assms by (simp add: applyFileEdits_def Let_def formatDiff_def countBackticks_eq)

theorem applyFileEdits_fence_length_witness:
  "fst (applyFileEdits codec_ascii patch_example disk_example ''/allowed/f.txt''
          [\<lparr>oldText = ''b'', newText = [BACKTICK, BACKTICK, BACKTICK, BACKTICK]\<rparr>] False)
   = Inr (replicate 5 BACKTICK @ ''diff'' @ [LF]
          @ createUnifiedDiff patch_example
              (normalizeLineEndings (utf8_decode codec_ascii [CHR ''a'', CR, LF, CHR ''b'']))
              [CHR ''a'', LF, BACKTICK, BACKTICK, BACKTICK, BACKTICK] ''/allowed/f.txt''
          @ replicate 5 BACKTICK @ [LF, LF])"
proof -
  let ?d = "createUnifiedDiff patch_example
              (normalizeLineEndings (utf8_decode codec_ascii [CHR ''a'', CR, LF, CHR ''b'']))
              [CHR ''a'', LF, BACKTICK, BACKTICK, BACKTICK, BACKTICK] ''/allowed/f.txt''"
  have h1: "contents disk_example ''/allowed/f.txt'' = Some [CHR ''a'', CR, LF, CHR ''b'']"
    by code_simp
  have h2: "applyEdits (normalizeLineEndings (utf8_decode codec_ascii [CHR ''a'', CR, LF, CHR ''b'']))
      [\<lparr>oldText = ''b'', newText = [BACKTICK, BACKTICK, BACKTICK, BACKTICK]\<rparr>]
      = Inr [CHR ''a'', LF, BACKTICK, BACKTICK, BACKTICK, BACKTICK]"
    by code_simp
  have m: "max 3 (Suc (longestRun BACKTICK ?d)) = 5"
    by code_simp
  have w: "(False \<or> writable disk_example ''/allowed/f.txt'') = True"
    by code_simp
  have "fst (applyFileEdits codec_ascii patch_example disk_example ''/allowed/f.txt''
          [\<lparr>oldText = ''b'', newText = [BACKTICK, BACKTICK, BACKTICK, BACKTICK]\<rparr>] False)
    = (if False \<or> writable disk_example ''/allowed/f.txt''
       then Inr (replicate (max 3 (Suc (longestRun BACKTICK ?d))) BACKTICK @ ''diff'' @ [LF] @ ?d
           @ replicate (max 3 (Suc (longestRun BACKTICK ?d))) BACKTICK @ [LF, LF])
       else Inl IOError)"
    using applyFileEdits_fence_length
      [where dsk = disk_example and cd = codec_ascii and filePath = "''/allowed/f.txt''"
         and patch = patch_example and dryRun = False, OF h1 h2 refl refl] .
  then show ?thesis
    unfolding m w if_True .
qed

lemma getSubstitution_no_dollar:
  "DOLLAR \<notin> set r \<Longrightarrow> getSubstitution m p q r = r"
  by (induction m p q r rule: getSubstitution.induct) auto

lemma applyEdit_empty_oldText:
  "oldText ed = [] \<Longrightarrow>
   applyEdit c ed = Inr (getSubstitution [] [] c (normalizeLineEndings (newText ed)) @ c)"
  by (cases c) (simp_all add: applyEdit_def replace_def)

text \<open>
  Claim C10. An edit with an empty old text always matches, and should put the new
  text in front of the content. The new text goes through the substitution of
  \<^verbatim>\<open>String.prototype.replace\<close>: of the new text \<^verbatim>\<open>$$x\<close> only \<^verbatim>\<open>$x\<close> arrives.
\<close>

theorem applyEdit_empty_oldText_dollar:
  "str_includes ''abc'' (normalizeLineEndings [])
   \<and> applyEdit ''abc'' \<lparr>oldText = [], newText = ''$$x''\<rparr> = Inr ''$xabc''
   \<and> ''$xabc'' \<noteq> ''$$x'' @ ''abc''"
  by code_simp

section \<open>Properties of the search\<close>

lemma search_results_kept:
  "search minimatch e rootPath pattern excludePatterns currentPath t results = Some out \<Longrightarrow>
     set out \<subseteq> set results \<union> kept minimatch e rootPath excludePatterns"
  "set (searchEntries minimatch e rootPath pattern excludePatterns currentPath entries results)
     \<subseteq> set results \<union> kept minimatch e rootPath excludePatterns"
proof (induction minimatch e rootPath pattern excludePatterns currentPath t results
         and minimatch e rootPath pattern excludePatterns currentPath entries results
       arbitrary: out rule: search_searchEntries.induct)
  case (1 minimatch e rootPath pattern excludePatterns currentPath entries results)
  then show ?case by auto
next
  case (2 minimatch e rootPath pattern excludePatterns currentPath results)
  then show ?case by simp
next
  case (3 minimatch e rootPath pattern excludePatterns currentPath results)
  then show ?case by simp
next
  case (4 minimatch e rootPath pattern excludePatterns currentPath results)
  then show ?case by simp
next
  case (5 minimatch e rootPath pattern excludePatterns currentPath name t rest results)
  let ?K = "kept minimatch e rootPath excludePatterns"
  let ?fullPath = "path_join [currentPath, name]"
  let ?rel = "path_relative (cwd e) rootPath ?fullPath"
  let ?pushed = "if str_includes (toLowerCase name) (toLowerCase pattern)
                 then results @ [?fullPath] else results"
  let ?searched = "if isDirectory t
                   then (case search minimatch e rootPath pattern excludePatterns ?fullPath t ?pushed of
                           None \<Rightarrow> ?pushed | Some deeper \<Rightarrow> deeper)
                   else ?pushed"
  show ?case
  proof (cases "validatePath e ?fullPath")
    case (Inl thrown)
    then show ?thesis using "5.IH"(1) [OF refl Inl] by simp
  next
    case (Inr validPath)
    show ?thesis
    proof (cases "shouldExclude minimatch excludePatterns ?rel")
      case True
      then show ?thesis using "5.IH"(2) [OF refl Inr refl True] Inr by simp
    next
      case False
      then have k: "?fullPath \<in> ?K" by (simp add: kept_def)
      then have p: "set ?pushed \<subseteq> set results \<union> ?K" by auto
      have s: "set ?searched \<subseteq> set results \<union> ?K"
      proof (cases "isDirectory t")
        case dir: True
        show ?thesis
        proof (cases "search minimatch e rootPath pattern excludePatterns ?fullPath t ?pushed")
          case None
          with dir p show ?thesis by simp
        next
          case (Some deeper)
          have "set deeper \<subseteq> set ?pushed \<union> ?K"
            using "5.IH"(3) [OF refl Inr refl False refl dir Some] .
          with p dir Some show ?thesis by auto
        qed
      next
        case False
        with p show ?thesis by simp
      qed
      have "set (searchEntries minimatch e rootPath pattern excludePatterns currentPath rest ?searched)
              \<subseteq> set ?searched \<union> ?K"
        using "5.IH"(4) [OF refl Inr refl False refl refl] .
      with s have "set (searchEntries minimatch e rootPath pattern excludePatterns currentPath rest ?searched)
              \<subseteq> set results \<union> ?K" by blast
      then show ?thesis using Inr False by (simp add: Let_def)
    qed
  qed
qed

text \<open>
  Claim C9, as stated: no result has a bare exclude pattern as a segment of its path
  below the root. It fails for the entry that the pattern names: the glob made from
  \<^verbatim>\<open>node_modules\<close> asks for a segment after it, the path \<^verbatim>\<open>a/b/node_modules\<close> has none,
  and a search for \<^verbatim>\<open>node\<close> returns that directory.
\<close>

theorem searchFiles_bare_exclude_counterexample:
  "CHR ''*'' \<notin> set ''node_modules''
   \<and> ''node_modules'' \<in> set (split SLASH (path_relative (cwd env_tree) ''/allowed'' ''/allowed/a/b/node_modules''))
   \<and> searchFiles minimatch_literal env_tree tree_example ''/allowed'' ''node'' [''node_modules'']
       = Some [''/allowed/a/b/node_modules'']"
  by code_simp

text \<open>
  Claim C9, amended: whatever is searched for, no result has a path relative to the
  root that the glob \<^verbatim>\<open>**/<pattern>/**\<close> of a bare exclude pattern matches; so the file
  \<^verbatim>\<open>a/b/node_modules/x.txt\<close> is not returned.
\<close>

theorem searchFiles_bare_exclude:
  assumes "searchFiles minimatch e tree rootPath pattern excludePatterns = Some out"
    and "r \<in> set out"
    and "p \<in> set excludePatterns"
    and "CHR ''*'' \<notin> set p"
  shows "\<not> minimatch (path_relative (cwd e) rootPath r) (''**/'' @ p @ ''/**'')"
proof -
  have "set out \<subseteq> kept minimatch e rootPath excludePatterns"
    using search_results_kept(1) [of minimatch e rootPath pattern excludePatterns rootPath tree "[]" out]
      assms(1) by (simp add: searchFiles_def)
  with assms(2) have "\<not> shouldExclude minimatch excludePatterns (path_relative (cwd e) rootPath r)"
    by (auto simp: kept_def)
  with assms(3,4) show ?thesis
    by (auto simp: shouldExclude_def list_ex_iff Let_def)
qed

theorem searchFiles_bare_exclude_witness:
  "searchFiles minimatch_literal env_tree tree_example ''/allowed'' ''txt'' [''node_modules''] = Some []
   \<and> searchFiles minimatch_literal env_tree tree_example ''/allowed'' ''txt'' [] = Some [''/allowed/a/b/node_modules/x.txt'']
   \<and> \<not> minimatch_literal (path_relative (cwd env_tree) ''/allowed'' ''/allowed/a/b/node_modules'')
         (''**/'' @ ''node_modules'' @ ''/**'')"
proof -
  have h1: "searchFiles minimatch_literal env_tree tree_example ''/allowed'' ''node'' [''node_modules'']
      = Some [''/allowed/a/b/node_modules'']"
    by code_simp
  have h2: "''/allowed/a/b/node_modules'' \<in> set [''/allowed/a/b/node_modules'']" by simp
  have h3: "''node_modules'' \<in> set [''node_modules'']" by simp
  have h4: "CHR ''*'' \<notin> set ''node_modules''" by simp
  have a: "searchFiles minimatch_literal env_tree tree_example ''/allowed'' ''txt'' [''node_modules''] = Some []"
    by code_simp
  have b: "searchFiles minimatch_literal env_tree tree_example ''/allowed'' ''txt'' [] = Some [''/allowed/a/b/node_modules/x.txt'']"
    by code_simp
  show ?thesis
    using searchFiles_bare_exclude [OF h1 h2 h3 h4] a b by simp
qed

end
